theory Spec2Isabelle
  imports Complex_Main "HOL-Library.Multiset" "HOL-Library.Sublist"
begin

section \<open>Strings and numbers of the request\<close>

text \<open>
  Request values are JavaScript strings. They are modelled as HOL strings, whose
  characters are the code points 0 to 255; the white space of
  \<^verbatim>\<open>String.prototype.trim\<close> and of \<^verbatim>\<open>parseInt\<close> is then TAB, LF, VT, FF, CR,
  SPACE and NO-BREAK SPACE (code 160).
\<close>

definition is_white_space :: "char \<Rightarrow> bool" where
  "is_white_space c =
     (let n = (of_char c :: nat) in (9 \<le> n \<and> n \<le> 13) \<or> n = 32 \<or> n = 160)"

definition trim :: "string \<Rightarrow> string" where
  "trim s = rev (dropWhile is_white_space (rev (dropWhile is_white_space s)))"

text \<open>
  \<^verbatim>\<open>parseInt(string)\<close> with no radix: leading white space is skipped, one sign is
  read, a prefix \<^verbatim>\<open>0x\<close> or \<^verbatim>\<open>0X\<close> selects radix 16, and the longest run of digits
  of the radix is the value; no digit at all gives NaN, here \<open>None\<close>. The result is a
  mathematical integer (JavaScript agrees for magnitudes up to \<open>2^53\<close>).
\<close>

definition digit_value :: "char \<Rightarrow> nat option" where
  "digit_value c =
     (let n = (of_char c :: nat) in
      if 48 \<le> n \<and> n \<le> 57 then Some (n - 48)
      else if 97 \<le> n \<and> n \<le> 122 then Some (n - 87)
      else if 65 \<le> n \<and> n \<le> 90 then Some (n - 55)
      else None)"

definition radix_digit :: "nat \<Rightarrow> char \<Rightarrow> bool" where
  "radix_digit R c = (case digit_value c of None \<Rightarrow> False | Some d \<Rightarrow> d < R)"

fun digits_value :: "nat \<Rightarrow> nat \<Rightarrow> string \<Rightarrow> nat" where
  "digits_value R acc [] = acc"
| "digits_value R acc (c # cs) =
     digits_value R (acc * R + (case digit_value c of None \<Rightarrow> 0 | Some d \<Rightarrow> d)) cs"

definition parseInt :: "string \<Rightarrow> int option" where
  "parseInt inputString =
     (let S = dropWhile is_white_space inputString;
          sign = (case S of c # _ \<Rightarrow> if c = CHR ''-'' then - 1 else 1 | [] \<Rightarrow> (1 :: int));
          S1 = (case S of c # cs \<Rightarrow> if c = CHR ''+'' \<or> c = CHR ''-'' then cs else S | [] \<Rightarrow> S);
          hex = (take 2 S1 = ''0x'' \<or> take 2 S1 = ''0X'');
          R = (if hex then 16 else 10);
          S2 = (if hex then drop 2 S1 else S1);
          Z = takeWhile (radix_digit R) S2
      in if Z = [] then None else Some (sign * int (digits_value R 0 Z)))"

text \<open>
  \<^verbatim>\<open>let page = parseInt(req.query.page) || 1;\<close> An absent parameter is \<open>None\<close>;
  \<^verbatim>\<open>||\<close> replaces the falsy numbers NaN and 0 by 1 and keeps every other number.
\<close>

definition effective_page :: "string option \<Rightarrow> int" where
  "effective_page page =
     (case page of
        None \<Rightarrow> 1
      | Some s \<Rightarrow> (case parseInt s of None \<Rightarrow> 1 | Some n \<Rightarrow> if n = 0 then 1 else n))"

section \<open>Notes and the store\<close>

text \<open>
  Modelled from the spec: the note schema \<^verbatim>\<open>./models/notes\<close> is not among the
  sources. The specification gives a note a title, a content, an optional media
  reference, the owning user and a creation timestamp; \<open>oid\<close> is the document's
  \<^verbatim>\<open>_id\<close>. Identifiers are natural numbers, timestamps are integers (milliseconds).
\<close>

record Note =
  oid :: nat
  title :: string
  content :: string
  media :: "string option"
  user :: nat
  createdAt :: int

text \<open>
  The collection is the list of its documents in the order in which the store
  enumerates them for a query. The documents are the data; the order of enumeration is
  the store's own business and is not fixed by the documents.
\<close>

type_synonym collection = "Note list"

subsection \<open>Regular expressions built from the search term\<close>

text \<open>
  \<^verbatim>\<open>new RegExp(search, 'i')\<close> reads the search term as a pattern; the constructor
  throws a SyntaxError or gives a regular expression, which is a test on strings. The
  model spells out the patterns made of literal characters (ASCII other than NUL and
  the fourteen syntax characters) and of the disjunction bar, and the patterns in which
  an alternative starts with a quantifier, which the constructor rejects (nothing to
  repeat). Every other pattern is left to the parameter \<open>other\<close>, which stands for the
  rest of the regular expression engine, whatever it does.
\<close>

definition syntax_character :: "char \<Rightarrow> bool" where
  "syntax_character c = (c \<in> set (CHR 0x5C # ''^$.*+?()[]{}|''))"

definition literal_character :: "char \<Rightarrow> bool" where
  "literal_character c =
     (let n = (of_char c :: nat) in 1 \<le> n \<and> n \<le> 127 \<and> \<not> syntax_character c)"

definition quantifier :: "char \<Rightarrow> bool" where
  "quantifier c = (c = CHR ''*'' \<or> c = CHR ''+'' \<or> c = CHR ''?'')"

fun split_bar :: "string \<Rightarrow> string list" where
  "split_bar [] = [[]]"
| "split_bar (c # cs) =
     (if c = CHR ''|'' then [] # split_bar cs
      else (case split_bar cs of a # as \<Rightarrow> (c # a) # as | [] \<Rightarrow> [[c]]))"

datatype regexp_result = SyntaxError | RegExp "string \<Rightarrow> bool"

type_synonym engine = "string \<Rightarrow> regexp_result"

text \<open>
  Matching with the flag \<^verbatim>\<open>i\<close>, for alternatives made of ASCII characters: a
  character of the pattern and a character of the text agree when their upper-case
  forms agree, where only the ASCII letters have another case; a regular expression
  matches a string when one of its alternatives occurs at some position.
\<close>

definition upcase :: "char \<Rightarrow> char" where
  "upcase c =
     (let n = (of_char c :: nat) in if 97 \<le> n \<and> n \<le> 122 then char_of (n - 32) else c)"

fun ci_prefix :: "string \<Rightarrow> string \<Rightarrow> bool" where
  "ci_prefix [] s = True"
| "ci_prefix (p # ps) [] = False"
| "ci_prefix (p # ps) (c # cs) = (upcase p = upcase c \<and> ci_prefix ps cs)"

fun ci_search :: "string \<Rightarrow> string \<Rightarrow> bool" where
  "ci_search p [] = ci_prefix p []"
| "ci_search p (c # cs) = (ci_prefix p (c # cs) \<or> ci_search p cs)"

definition regexp_test :: "string list \<Rightarrow> string \<Rightarrow> bool" where
  "regexp_test alternatives s = list_ex (\<lambda>a. ci_search a s) alternatives"

definition new_RegExp :: "engine \<Rightarrow> string \<Rightarrow> regexp_result" where
  "new_RegExp other pattern =
     (if list_ex (\<lambda>c. \<not> (literal_character c \<or> c = CHR ''|'' \<or> quantifier c)) pattern
      then other pattern
      else if list_ex (\<lambda>a. case a of c # _ \<Rightarrow> quantifier c | [] \<Rightarrow> False) (split_bar pattern)
      then SyntaxError
      else if list_ex quantifier pattern then other pattern
      else RegExp (regexp_test (split_bar pattern)))"

subsection \<open>Queries\<close>

text \<open>
  The filter \<^verbatim>\<open>{ user: userid }\<close>, with \<^verbatim>\<open>$or: [{ title: regex }, { content: regex }]\<close>
  added when there is a search term.
\<close>

record query_filter =
  user_eq :: nat
  or_regex :: "(string \<Rightarrow> bool) option"

definition matches :: "query_filter \<Rightarrow> Note \<Rightarrow> bool" where
  "matches q n =
     (user n = user_eq q \<and>
      (case or_regex q of
         None \<Rightarrow> True
       | Some regex \<Rightarrow> regex (title n) \<or> regex (content n)))"

definition countDocuments :: "query_filter \<Rightarrow> collection \<Rightarrow> nat" where
  "countDocuments q db = length (filter (matches q) db)"

text \<open>
  \<^verbatim>\<open>.sort({ createdAt: d })\<close> with \<open>d\<close> either 1 or -1 orders by the creation time,
  ascending or descending. No second key is given: documents with equal creation times
  stay in the order of enumeration.
\<close>

definition sort_createdAt :: "int \<Rightarrow> Note list \<Rightarrow> Note list" where
  "sort_createdAt d ns = sort_key (\<lambda>n. d * createdAt n) ns"

text \<open>
  \<^verbatim>\<open>Note.find(query).sort(sortOptions).skip(k).limit(l)\<close>. The store rejects a negative
  skip; the rejection is \<open>None\<close> and reaches the handler's \<^verbatim>\<open>catch\<close>.
\<close>

definition find_sort_skip_limit ::
  "query_filter \<Rightarrow> int \<Rightarrow> int \<Rightarrow> nat \<Rightarrow> collection \<Rightarrow> Note list option" where
  "find_sort_skip_limit q d k l db =
     (if k < 0 then None
      else Some (take l (drop (nat k) (sort_createdAt d (filter (matches q) db)))))"

section \<open>The listing handler\<close>

text \<open>
  The decoded token \<^verbatim>\<open>{ email, userid }\<close> that the token middleware leaves in
  \<^verbatim>\<open>res.locals.user\<close>, the query parameters of \<^verbatim>\<open>GET /\<close> (each absent or a string),
  and what the handler answers: the rendered listing, or status 500 from its
  \<^verbatim>\<open>catch\<close>.
\<close>

record token_payload =
  email :: string
  userid :: nat

record query_params =
  q_page :: "string option"
  q_sort :: "string option"
  q_search :: "string option"

record listing =
  "notes" :: "Note list"
  currentPage :: int
  totalPages :: int
  totalNotes :: nat
  v_sort :: string
  v_search :: string

datatype outcome = Render listing | Status500

definition sort_param :: "string option \<Rightarrow> string" where
  "sort_param s = (case s of None \<Rightarrow> ''newest'' | Some v \<Rightarrow> if v = [] then ''newest'' else v)"

definition search_param :: "string option \<Rightarrow> string" where
  "search_param s = (case s of None \<Rightarrow> [] | Some v \<Rightarrow> if v = [] then [] else trim v)"

definition sortOptions :: "string \<Rightarrow> int" where
  "sortOptions sort_mode = (if sort_mode = ''oldest'' then 1 else - 1)"

definition limit :: nat where
  "limit = 5"

definition total_pages :: "nat \<Rightarrow> int" where
  "total_pages n = \<lceil>real n / real limit\<rceil>"

definition clamp_page :: "int \<Rightarrow> int \<Rightarrow> int" where
  "clamp_page nPages page = (if nPages > 0 \<and> page > nPages then nPages else page)"

text \<open>
  Lines 212 to 217: the filter of the listing. A rejected pattern throws inside the
  handler's \<^verbatim>\<open>try\<close>.
\<close>

datatype query_result = Throws | Query query_filter

definition build_query :: "engine \<Rightarrow> nat \<Rightarrow> string \<Rightarrow> query_result" where
  "build_query other uid search =
     (if search = [] then Query \<lparr>user_eq = uid, or_regex = None\<rparr>
      else (case new_RegExp other search of
              SyntaxError \<Rightarrow> Throws
            | RegExp regex \<Rightarrow> Query \<lparr>user_eq = uid, or_regex = Some regex\<rparr>))"

definition get_index ::
  "engine \<Rightarrow> collection \<Rightarrow> token_payload option \<Rightarrow> query_params \<Rightarrow> outcome" where
  "get_index other db locals_user params =
     (let page = effective_page (q_page params);
          sort_mode = sort_param (q_sort params);
          search = search_param (q_search params)
      in case locals_user of
           None \<Rightarrow>
             Render \<lparr>notes = [], currentPage = 1, totalPages = 0, totalNotes = 0,
                     v_sort = sort_mode, v_search = search\<rparr>
         | Some u \<Rightarrow>
             (case build_query other (userid u) search of
                Throws \<Rightarrow> Status500
              | Query query \<Rightarrow>
                  (let nTotal = countDocuments query db;
                       nPages = total_pages nTotal;
                       page' = clamp_page nPages page
                   in case find_sort_skip_limit query (sortOptions sort_mode)
                             ((page' - 1) * int limit) limit db of
                        None \<Rightarrow> Status500
                      | Some found \<Rightarrow>
                          Render \<lparr>notes = found, currentPage = page', totalPages = nPages,
                                  totalNotes = nTotal, v_sort = sort_mode, v_search = search\<rparr>)))"

section \<open>Tokens, login and delete\<close>

text \<open>
  The user schema of \<^verbatim>\<open>models/user.js\<close>; \<open>uid\<close> is the document's \<^verbatim>\<open>_id\<close>.
\<close>

record User =
  uid :: nat
  username :: string
  email :: string
  password :: string
  age :: int
  posts :: "nat list"

text \<open>
  The library \<^verbatim>\<open>jsonwebtoken\<close> is a parameter: \<open>sign\<close> makes a token from a payload
  and a secret, \<open>verify\<close> returns the payload or throws (\<open>None\<close>). So is
  \<^verbatim>\<open>bcrypt.compare\<close>, a predicate on the raw password and the stored hash.
\<close>

record 'tok jsonwebtoken =
  sign :: "token_payload \<Rightarrow> string \<Rightarrow> 'tok"
  verify :: "'tok \<Rightarrow> string \<Rightarrow> token_payload option"

text \<open>\<^verbatim>\<open>process.env.JWT_SECRET || 'jwt_secret'\<close>: an unset or empty variable is falsy.\<close>

definition JWT_SECRET :: "string option \<Rightarrow> string" where
  "JWT_SECRET env = (case env of None \<Rightarrow> ''jwt_secret'' | Some s \<Rightarrow> if s = [] then ''jwt_secret'' else s)"

text \<open>
  The middleware of lines 41 to 55 computes \<^verbatim>\<open>res.locals.user\<close> from the cookie
  \<^verbatim>\<open>token\<close>; an absent (or empty) cookie is \<open>None\<close>.
\<close>

definition token_middleware ::
  "'tok jsonwebtoken \<Rightarrow> string option \<Rightarrow> 'tok option \<Rightarrow> token_payload option" where
  "token_middleware jwt env token =
     (case token of
        Some t \<Rightarrow> (case verify jwt t (JWT_SECRET env) of Some decoded \<Rightarrow> Some decoded | None \<Rightarrow> None)
      | None \<Rightarrow> None)"

record response =
  flash :: "string \<times> string"
  redirect :: string

definition findOne :: "User list \<Rightarrow> string \<Rightarrow> User option" where
  "findOne users e = find (\<lambda>u. User.email u = e) users"

text \<open>
  \<^verbatim>\<open>POST /login\<close>: the answer and the cookie it sets. The body's password may be
  missing; \<^verbatim>\<open>bcrypt.compare\<close> then throws and the \<^verbatim>\<open>catch\<close> answers.
\<close>

definition post_login ::
  "'tok jsonwebtoken \<Rightarrow> (string \<Rightarrow> string \<Rightarrow> bool) \<Rightarrow> string option \<Rightarrow> User list \<Rightarrow>
   string \<Rightarrow> string option \<Rightarrow> response \<times> 'tok option" where
  "post_login jwt bcrypt_compare env users e pw =
     (case findOne users e of
        None \<Rightarrow> (\<lparr>flash = (''error'', ''Invalid email or password''), redirect = ''/login''\<rparr>, None)
      | Some usr \<Rightarrow>
          (case pw of
             None \<Rightarrow> (\<lparr>flash = (''error'', ''Error logging in''), redirect = ''/login''\<rparr>, None)
           | Some p \<Rightarrow>
               if \<not> bcrypt_compare p (password usr)
               then (\<lparr>flash = (''error'', ''Invalid email or password''), redirect = ''/login''\<rparr>, None)
               else (\<lparr>flash = (''success'', ''Logged in successfully''), redirect = ''/''\<rparr>,
                     Some (sign jwt \<lparr>token_payload.email = User.email usr, userid = uid usr\<rparr>
                             (JWT_SECRET env)))))"

text \<open>
  \<^verbatim>\<open>Note.findOneAndDelete(filter)\<close> removes the first document that passes the filter
  and returns it, in one step.
\<close>

definition findOneAndDelete :: "(Note \<Rightarrow> bool) \<Rightarrow> collection \<Rightarrow> Note option \<times> collection" where
  "findOneAndDelete P db =
     (case find P db of None \<Rightarrow> (None, db) | Some n \<Rightarrow> (Some n, remove1 n db))"

text \<open>
  \<^verbatim>\<open>POST /delete/:id\<close> behind \<^verbatim>\<open>isLoggedIn\<close>: the answer and the collection after
  it. The path parameter is given after the schema's cast to an identifier; \<open>None\<close> is
  a parameter that does not cast, which throws.
\<close>

definition post_delete ::
  "'tok jsonwebtoken \<Rightarrow> string option \<Rightarrow> 'tok option \<Rightarrow> nat option \<Rightarrow> collection \<Rightarrow>
   response \<times> collection" where
  "post_delete jwt env token note_id db =
     (case token of
        None \<Rightarrow> (\<lparr>flash = (''error'', ''You must be logged in.''), redirect = ''/login''\<rparr>, db)
      | Some t \<Rightarrow>
          (case verify jwt t (JWT_SECRET env) of
             None \<Rightarrow> (\<lparr>flash = (''error'', ''Invalid token.''), redirect = ''/login''\<rparr>, db)
           | Some u \<Rightarrow>
               (case note_id of
                  None \<Rightarrow> (\<lparr>flash = (''error'', ''Error deleting note''), redirect = ''/''\<rparr>, db)
                | Some i \<Rightarrow>
                    (case findOneAndDelete (\<lambda>n. oid n = i \<and> user n = userid u) db of
                       (None, db') \<Rightarrow>
                         (\<lparr>flash = (''error'', ''Note not found''), redirect = ''/''\<rparr>, db')
                     | (Some deletedNote, db') \<Rightarrow>
                         (\<lparr>flash = (''success'', ''Note deleted''), redirect = ''/''\<rparr>, db')))))"

section \<open>What the specification calls a match\<close>

text \<open>
  The specification's search: the term occurs in the text as a substring, letter case
  ignored. This definition follows the specification's words; \<open>regexp_test\<close> above is
  what the handler's query does.
\<close>

definition ci_substring :: "string \<Rightarrow> string \<Rightarrow> bool" where
  "ci_substring t s = sublist (map upcase t) (map upcase s)"

section \<open>Example data\<close>

definition alice :: token_payload where
  "alice = \<lparr>token_payload.email = ''alice@example.org'', userid = 1\<rparr>"

definition bob :: token_payload where
  "bob = \<lparr>token_payload.email = ''bob@example.org'', userid = 2\<rparr>"

definition grocery :: Note where
  "grocery = \<lparr>oid = 10, title = ''Grocery List'', content = ''eggs and flour'', media = None,
               user = 1, createdAt = 100\<rparr>"

definition diary :: Note where
  "diary = \<lparr>oid = 11, title = ''Diary'', content = ''grocery run at noon'', media = None,
             user = 2, createdAt = 200\<rparr>"

definition todo :: Note where
  "todo = \<lparr>oid = 12, title = ''Todo'', content = ''call home'', media = None,
            user = 1, createdAt = 300\<rparr>"

definition example_db :: collection where
  "example_db = [grocery, diary, todo]"

definition errand :: Note where
  "errand = \<lparr>oid = 13, title = ''Errand'', content = ''post office'', media = None,
              user = 1, createdAt = 200\<rparr>"

definition twin1 :: Note where
  "twin1 = \<lparr>oid = 21, title = ''First'', content = ''one'', media = None,
             user = 1, createdAt = 500\<rparr>"

definition twin2 :: Note where
  "twin2 = \<lparr>oid = 22, title = ''Second'', content = ''two'', media = None,
             user = 1, createdAt = 500\<rparr>"

definition twelve_db :: collection where
  "twelve_db =
     map (\<lambda>i. \<lparr>oid = i, title = ''note'', content = ''text'', media = None,
                user = (if i = 12 then 2 else 1), createdAt = int i\<rparr>)
       [0, 1, 2, 3, 4, 5, 6, 7, 8, 9, 10, 11, 12]"

definition example_jwt :: "(token_payload \<times> string) jsonwebtoken" where
  "example_jwt =
     \<lparr>sign = (\<lambda>payload secret. (payload, secret)),
      verify = (\<lambda>t secret. if snd t = secret then Some (fst t) else None)\<rparr>"

definition example_compare :: "string \<Rightarrow> string \<Rightarrow> bool" where
  "example_compare raw hash = (hash = ''hashed:'' @ raw)"

definition alice_user :: User where
  "alice_user = \<lparr>uid = 1, username = ''alice'', email = ''alice@example.org'',
                  password = ''hashed:wonderland'', age = 30, posts = []\<rparr>"

text \<open>
  An engine for the examples. Their patterns are among those the model spells out, so
  it is never asked.
\<close>

definition reject_all :: engine where
  "reject_all pattern = SyntaxError"

definition no_params :: query_params where
  "no_params = \<lparr>q_page = None, q_sort = None, q_search = None\<rparr>"

definition only_sort :: "string \<Rightarrow> query_params" where
  "only_sort s = \<lparr>q_page = None, q_sort = Some s, q_search = None\<rparr>"

definition only_search :: "string \<Rightarrow> query_params" where
  "only_search s = \<lparr>q_page = None, q_sort = None, q_search = Some s\<rparr>"

definition only_page :: "string \<Rightarrow> query_params" where
  "only_page p = \<lparr>q_page = Some p, q_sort = None, q_search = None\<rparr>"

section \<open>Evaluation and the shape of the handler's answer\<close>

text \<open>Comparing upper-case forms is comparing their character codes.\<close>

lemma of_char_upcase:
  "(of_char (upcase c) :: nat) =
     (if 97 \<le> (of_char c :: nat) \<and> (of_char c :: nat) \<le> 122 then of_char c - 32 else of_char c)"
proof (cases "97 \<le> (of_char c :: nat) \<and> (of_char c :: nat) \<le> 122")
  case True
  then have "(of_char c :: nat) - 32 < 256" by linarith
  then have "((of_char c :: nat) - 32) mod 256 = of_char c - 32" by (rule mod_less)
  with True show ?thesis by (simp add: upcase_def Let_def)
next
  case False
  then show ?thesis by (auto simp: upcase_def Let_def)
qed

lemma upcase_eq_iff:
  "(upcase p = upcase c) =
     ((if 97 \<le> (of_char p :: nat) \<and> (of_char p :: nat) \<le> 122 then of_char p - 32 else of_char p) =
      (if 97 \<le> (of_char c :: nat) \<and> (of_char c :: nat) \<le> 122 then of_char c - 32 else (of_char c :: nat)))"
proof -
  have "(upcase p = upcase c) = ((of_char (upcase p) :: nat) = of_char (upcase c))"
    by (simp only: of_char_eq_iff)
  then show ?thesis by (simp only: of_char_upcase)
qed

lemmas string_defs =
  is_white_space_def trim_def digit_value_def radix_digit_def parseInt_def effective_page_def
  syntax_character_def literal_character_def quantifier_def new_RegExp_def upcase_eq_iff
  regexp_test_def

lemmas handler_defs =
  matches_def countDocuments_def sort_createdAt_def find_sort_skip_limit_def sort_param_def
  search_param_def sortOptions_def limit_def clamp_page_def build_query_def get_index_def

lemmas example_defs =
  alice_def bob_def grocery_def diary_def todo_def errand_def twin1_def twin2_def example_db_def
  twelve_db_def no_params_def only_sort_def only_search_def only_page_def

lemmas login_defs =
  example_jwt_def example_compare_def alice_user_def JWT_SECRET_def token_middleware_def
  findOne_def post_login_def findOneAndDelete_def post_delete_def

lemma total_pages_div: "total_pages n = (int n + 4) div 5"
proof -
  have "real n / real limit = of_int (int n) / of_int 5"
    by (simp add: limit_def)
  then have "total_pages n = - (- int n div 5)"
    unfolding total_pages_def by (simp only: ceiling_divide_eq_div)
  then show ?thesis by presburger
qed

lemma get_index_anonymous:
  "get_index eng db None params =
     Render \<lparr>notes = [], currentPage = 1, totalPages = 0, totalNotes = 0,
             v_sort = sort_param (q_sort params), v_search = search_param (q_search params)\<rparr>"
  by (simp add: get_index_def)

lemma get_index_query:
  assumes "build_query eng (userid u) (search_param (q_search params)) = Query q"
  shows "get_index eng db (Some u) params =
     (if clamp_page (total_pages (countDocuments q db)) (effective_page (q_page params)) < 1
      then Status500
      else Render \<lparr>notes = take limit (drop (nat ((clamp_page (total_pages (countDocuments q db))
                                  (effective_page (q_page params)) - 1) * int limit))
                             (sort_createdAt (sortOptions (sort_param (q_sort params)))
                                (filter (matches q) db))),
                   currentPage = clamp_page (total_pages (countDocuments q db))
                                  (effective_page (q_page params)),
                   totalPages = total_pages (countDocuments q db),
                   totalNotes = countDocuments q db,
                   v_sort = sort_param (q_sort params),
                   v_search = search_param (q_search params)\<rparr>)"
  using assms by (simp add: get_index_def find_sort_skip_limit_def Let_def limit_def)

lemma build_query_user: "build_query eng i s = Query q \<Longrightarrow> user_eq q = i"
  by (auto simp: build_query_def split: if_splits regexp_result.splits)

lemma set_sort_createdAt: "set (sort_createdAt d ns) = set ns"
  by (simp add: sort_createdAt_def)

lemma effective_page_examples:
  "effective_page (Some ''1'') = 1" "effective_page (Some ''3'') = 3"
  "effective_page (Some ''5'') = 5"
  by (simp_all add: string_defs)

lemma length_sort_createdAt: "length (sort_createdAt d ns) = length ns"
  by (simp add: sort_createdAt_def)

lemma nat_total_pages: "nat (total_pages n) = (n + 4) div 5"
  unfolding total_pages_div by (simp add: nat_div_distrib nat_add_distrib)

lemma last_page_arith:
  fixes n :: nat
  assumes "0 < (n + 4) div 5"
  shows "5 * ((n + 4) div 5 - 1) < n" and "n - 5 * ((n + 4) div 5 - 1) \<le> 5"
  using assms by presburger+

lemma totals_of_listing:
  assumes q: "build_query eng (userid u) (search_param (q_search params)) = Query q"
    and r: "get_index eng db (Some u) params = Render v"
  shows "totalNotes v = length (filter (matches q) db) \<and>
         totalPages v = \<lceil>real (totalNotes v) / 5\<rceil>"
  using r get_index_query [OF q, of db]
  by (auto split: if_splits simp: countDocuments_def total_pages_def limit_def)

lemma clamped_listing:
  assumes q: "build_query eng (userid u) (search_param (q_search params)) = Query q"
    and pos: "0 < total_pages (countDocuments q db)"
    and big: "total_pages (countDocuments q db) < effective_page (q_page params)"
  shows "get_index eng db (Some u) params =
           Render \<lparr>notes = drop (5 * (nat (total_pages (countDocuments q db)) - 1))
                             (sort_createdAt (sortOptions (sort_param (q_sort params)))
                                (filter (matches q) db)),
                   currentPage = total_pages (countDocuments q db),
                   totalPages = total_pages (countDocuments q db),
                   totalNotes = countDocuments q db,
                   v_sort = sort_param (q_sort params),
                   v_search = search_param (q_search params)\<rparr>"
    and "drop (5 * (nat (total_pages (countDocuments q db)) - 1))
           (sort_createdAt (sortOptions (sort_param (q_sort params))) (filter (matches q) db)) \<noteq> []"
proof -
  let ?n = "countDocuments q db"
  let ?s = "sort_createdAt (sortOptions (sort_param (q_sort params))) (filter (matches q) db)"
  have len: "length ?s = ?n"
    by (simp add: length_sort_createdAt countDocuments_def)
  have cl: "clamp_page (total_pages ?n) (effective_page (q_page params)) = total_pages ?n"
    using pos big by (simp add: clamp_page_def)
  have k: "nat ((total_pages ?n - 1) * int limit) = 5 * (nat (total_pages ?n) - 1)"
    using pos by (simp add: limit_def nat_mult_distrib nat_diff_distrib)
  have lt: "5 * (nat (total_pages ?n) - 1) < ?n"
    using pos last_page_arith(1) [of ?n] by (simp add: nat_total_pages total_pages_div)
  show "drop (5 * (nat (total_pages ?n) - 1)) ?s \<noteq> []"
    using lt len by simp
  have "?n - 5 * (nat (total_pages ?n) - 1) \<le> 5"
    using pos last_page_arith(2) [of ?n] by (simp add: nat_total_pages total_pages_div)
  then have "take limit (drop (5 * (nat (total_pages ?n) - 1)) ?s) =
        drop (5 * (nat (total_pages ?n) - 1)) ?s"
    using len by (simp add: limit_def)
  then show "get_index eng db (Some u) params =
           Render \<lparr>notes = drop (5 * (nat (total_pages ?n) - 1)) ?s,
                   currentPage = total_pages ?n,
                   totalPages = total_pages ?n,
                   totalNotes = ?n,
                   v_sort = sort_param (q_sort params),
                   v_search = search_param (q_search params)\<rparr>"
    using get_index_query [OF q, of db] pos cl k by simp
qed

lemma get_index_page_cong:
  assumes q: "build_query eng (userid u) (search_param (q_search params)) = Query q"
    and "clamp_page (total_pages (countDocuments q db)) (effective_page p1) =
         clamp_page (total_pages (countDocuments q db)) (effective_page p2)"
  shows "get_index eng db (Some u) (params\<lparr>q_page := p1\<rparr>) =
         get_index eng db (Some u) (params\<lparr>q_page := p2\<rparr>)"
proof -
  have q1: "build_query eng (userid u) (search_param (q_search (params\<lparr>q_page := p1\<rparr>))) = Query q"
    and q2: "build_query eng (userid u) (search_param (q_search (params\<lparr>q_page := p2\<rparr>))) = Query q"
    using q by simp_all
  show ?thesis
    unfolding get_index_query [OF q1] get_index_query [OF q2] using assms(2) by simp
qed

lemma clamped_is_last_page:
  assumes q: "build_query eng (userid u) (search_param (q_search params)) = Query q"
    and pos: "0 < total_pages (countDocuments q db)"
    and big: "total_pages (countDocuments q db) < effective_page (q_page params)"
    and last: "effective_page p = total_pages (countDocuments q db)"
  shows "get_index eng db (Some u) (params\<lparr>q_page := p\<rparr>) = get_index eng db (Some u) params"
proof -
  have "clamp_page (total_pages (countDocuments q db)) (effective_page p) =
        clamp_page (total_pages (countDocuments q db)) (effective_page (q_page params))"
    using pos big last by (simp add: clamp_page_def)
  from get_index_page_cong [OF q this] show ?thesis by simp
qed

lemma page_length:
  assumes q: "build_query eng (userid u) (search_param (q_search params)) = Query q"
    and r: "get_index eng db (Some u) params = Render v"
  shows "length (notes v) = min 5 (totalNotes v - 5 * nat (currentPage v - 1))"
  using r get_index_query [OF q, of db]
  by (auto split: if_splits
      simp: countDocuments_def limit_def length_sort_createdAt nat_mult_distrib)

lemma twelve_notes:
  assumes q: "build_query eng (userid u) (search_param (q_search params)) = Query q"
    and n: "countDocuments q db = 12"
  shows "\<exists>v1 v3. get_index eng db (Some u) (params\<lparr>q_page := Some ''1''\<rparr>) = Render v1 \<and>
           length (notes v1) = 5 \<and> totalPages v1 = 3 \<and>
           get_index eng db (Some u) (params\<lparr>q_page := Some ''3''\<rparr>) = Render v3 \<and>
           length (notes v3) = 2 \<and> totalPages v3 = 3 \<and>
           get_index eng db (Some u) (params\<lparr>q_page := Some ''5''\<rparr>) = Render v3"
proof -
  have tp: "total_pages (countDocuments q db) = 3"
    by (simp add: n total_pages_div)
  have len: "length (filter (matches q) db) = 12"
    using n by (simp add: countDocuments_def)
  have q': "build_query eng (userid u) (search_param (q_search (params\<lparr>q_page := p\<rparr>))) = Query q" for p
    using q by simp
  show ?thesis
    unfolding get_index_query [OF q'] tp
    using len by (simp add: effective_page_examples clamp_page_def limit_def length_sort_createdAt n)
qed

section \<open>Page parameter\<close>

text \<open>
  C4. The claim: the effective page is 1 whenever the page parameter is absent, not a
  number or less than 1. The handler's \<^verbatim>\<open>parseInt(req.query.page) || 1\<close> replaces
  NaN and 0 only: for the parameter \<^verbatim>\<open>-3\<close> the effective page is -3.
\<close>

theorem effective_page_negative: "effective_page (Some ''-3'') = - 3"
  by (simp add: string_defs)

section \<open>Owner scoping\<close>

text \<open>
  C1. Every note of a rendered listing belongs to the identity of the request and comes
  from the collection; a note of another owner is never listed, whatever the page, sort
  and search parameters are.
\<close>

theorem listing_owner_scoped:
  assumes "get_index eng db (Some b) params = Render v"
  shows "(\<forall>n \<in> set (notes v). user n = userid b \<and> n \<in> set db) \<and>
         (\<forall>n \<in> set db. user n \<noteq> userid b \<longrightarrow> n \<notin> set (notes v))"
proof -
  obtain q where q: "build_query eng (userid b) (search_param (q_search params)) = Query q"
    using assms by (cases "build_query eng (userid b) (search_param (q_search params))")
      (auto simp: get_index_def Let_def)
  have "set (notes v) \<subseteq> set (filter (matches q) db)"
    using assms get_index_query [OF q, of db]
    by (auto split: if_splits simp: set_sort_createdAt dest!: in_set_takeD in_set_dropD)
  moreover have "user n = userid b" if "matches q n" for n
    using that build_query_user [OF q] by (simp add: matches_def)
  ultimately show ?thesis by auto
qed

theorem listing_owner_scoped_witness:
  "get_index reject_all example_db (Some bob) (only_search ''grocery'') =
     Render \<lparr>notes = [diary], currentPage = 1, totalPages = 1, totalNotes = 1,
             v_sort = ''newest'', v_search = ''grocery''\<rparr> \<and>
   list_all (\<lambda>n. user n = userid bob) [diary] \<and> grocery \<notin> set [diary]"
proof -
  have run: "get_index reject_all example_db (Some bob) (only_search ''grocery'') =
     Render \<lparr>notes = [diary], currentPage = 1, totalPages = 1, totalNotes = 1,
             v_sort = ''newest'', v_search = ''grocery''\<rparr>"
    by (simp add: handler_defs string_defs example_defs total_pages_div)
  from listing_owner_scoped [OF run] show ?thesis
    using run by (simp add: example_defs)
qed

section \<open>Pagination\<close>

text \<open>
  C3. For a listing whose filter is \<open>q\<close>: the rendered total is the number of documents
  that pass the filter, counted before any slicing, and the number of pages is the
  ceiling of the total over 5. When there are pages and the requested page lies beyond
  the last one, the handler renders the last page, which is not empty, exactly as if the
  last page had been requested. With 12 matching notes, page 1 has 5 items, page 3 has 2,
  there are 3 pages, and page 5 is answered as page 3.
\<close>

theorem pagination_totals_and_clamping:
  assumes q: "build_query eng (userid u) (search_param (q_search params)) = Query q"
  shows "(\<forall>v. get_index eng db (Some u) params = Render v \<longrightarrow>
            totalNotes v = length (filter (matches q) db) \<and>
            totalPages v = \<lceil>real (totalNotes v) / 5\<rceil>) \<and>
         (0 < total_pages (countDocuments q db) \<and>
          total_pages (countDocuments q db) < effective_page (q_page params) \<longrightarrow>
            (\<exists>v. get_index eng db (Some u) params = Render v \<and> currentPage v = totalPages v \<and>
                 notes v \<noteq> [] \<and>
                 notes v = drop (5 * (nat (totalPages v) - 1))
                            (sort_createdAt (sortOptions (sort_param (q_sort params)))
                               (filter (matches q) db))) \<and>
            (\<forall>p. effective_page p = total_pages (countDocuments q db) \<longrightarrow>
                 get_index eng db (Some u) (params\<lparr>q_page := p\<rparr>) = get_index eng db (Some u) params)) \<and>
         (countDocuments q db = 12 \<longrightarrow>
            (\<exists>v1 v3. get_index eng db (Some u) (params\<lparr>q_page := Some ''1''\<rparr>) = Render v1 \<and>
               length (notes v1) = 5 \<and> totalPages v1 = 3 \<and>
               get_index eng db (Some u) (params\<lparr>q_page := Some ''3''\<rparr>) = Render v3 \<and>
               length (notes v3) = 2 \<and> totalPages v3 = 3 \<and>
               get_index eng db (Some u) (params\<lparr>q_page := Some ''5''\<rparr>) = Render v3))"
proof (intro conjI allI impI)
  fix v assume "get_index eng db (Some u) params = Render v"
  from totals_of_listing [OF q this]
  show "totalNotes v = length (filter (matches q) db)"
    and "totalPages v = \<lceil>real (totalNotes v) / 5\<rceil>" by simp_all
next
  assume c: "0 < total_pages (countDocuments q db) \<and>
             total_pages (countDocuments q db) < effective_page (q_page params)"
  from clamped_listing [OF q] c
  show "\<exists>v. get_index eng db (Some u) params = Render v \<and> currentPage v = totalPages v \<and>
            notes v \<noteq> [] \<and>
            notes v = drop (5 * (nat (totalPages v) - 1))
                       (sort_createdAt (sortOptions (sort_param (q_sort params)))
                          (filter (matches q) db))"
    by simp
next
  fix p
  assume "0 < total_pages (countDocuments q db) \<and>
          total_pages (countDocuments q db) < effective_page (q_page params)"
    and "effective_page p = total_pages (countDocuments q db)"
  then show "get_index eng db (Some u) (params\<lparr>q_page := p\<rparr>) = get_index eng db (Some u) params"
    using clamped_is_last_page [OF q] by simp
next
  assume "countDocuments q db = 12"
  from twelve_notes [OF q this]
  show "\<exists>v1 v3. get_index eng db (Some u) (params\<lparr>q_page := Some ''1''\<rparr>) = Render v1 \<and>
          length (notes v1) = 5 \<and> totalPages v1 = 3 \<and>
          get_index eng db (Some u) (params\<lparr>q_page := Some ''3''\<rparr>) = Render v3 \<and>
          length (notes v3) = 2 \<and> totalPages v3 = 3 \<and>
          get_index eng db (Some u) (params\<lparr>q_page := Some ''5''\<rparr>) = Render v3" .
qed

theorem pagination_totals_and_clamping_witness:
  "build_query reject_all (userid alice) (search_param (q_search (only_page ''5''))) =
     Query \<lparr>user_eq = 1, or_regex = None\<rparr> \<and>
   countDocuments \<lparr>user_eq = 1, or_regex = None\<rparr> twelve_db = 12 \<and>
   effective_page (Some ''3'') = total_pages 12 \<and>
   get_index reject_all twelve_db (Some alice) (only_page ''3'') =
     get_index reject_all twelve_db (Some alice) (only_page ''5'')"
proof -
  have q: "build_query reject_all (userid alice) (search_param (q_search (only_page ''5''))) =
             Query \<lparr>user_eq = 1, or_regex = None\<rparr>"
    by (simp add: build_query_def search_param_def only_page_def alice_def)
  have n: "countDocuments \<lparr>user_eq = 1, or_regex = None\<rparr> twelve_db = 12"
    by (simp add: countDocuments_def matches_def twelve_db_def)
  have e: "effective_page (q_page (only_page ''5'')) = 5"
    by (simp add: only_page_def effective_page_examples)
  have u: "(only_page ''5'')\<lparr>q_page := Some ''3''\<rparr> = only_page ''3''"
    by (simp add: only_page_def)
  have pos: "0 < total_pages (countDocuments \<lparr>user_eq = 1, or_regex = None\<rparr> twelve_db) \<and>
             total_pages (countDocuments \<lparr>user_eq = 1, or_regex = None\<rparr> twelve_db)
               < effective_page (q_page (only_page ''5''))"
    unfolding n e by (simp add: total_pages_div)
  have last: "effective_page (Some ''3'') =
              total_pages (countDocuments \<lparr>user_eq = 1, or_regex = None\<rparr> twelve_db)"
    unfolding n by (simp add: total_pages_div effective_page_examples)
  from pagination_totals_and_clamping [OF q, of twelve_db] pos last
  have "get_index reject_all twelve_db (Some alice) ((only_page ''5'')\<lparr>q_page := Some ''3''\<rparr>) =
        get_index reject_all twelve_db (Some alice) (only_page ''5'')"
    by blast
  then show ?thesis
    using q n u by (simp add: total_pages_div effective_page_examples)
qed

text \<open>
  When nothing passes the filter there are no pages and the page is not clamped: a
  page of at least 1 is rendered as it was requested, with no notes (for page numbers
  that JavaScript represents exactly).
\<close>

lemma empty_listing_not_clamped:
  assumes q: "build_query eng (userid u) (search_param (q_search params)) = Query q"
    and e: "countDocuments q db = 0"
    and p: "1 \<le> effective_page (q_page params)"
  shows "get_index eng db (Some u) params =
           Render \<lparr>notes = [], currentPage = effective_page (q_page params), totalPages = 0,
                   totalNotes = 0, v_sort = sort_param (q_sort params),
                   v_search = search_param (q_search params)\<rparr>"
proof -
  have "filter (matches q) db = []"
    using e by (simp add: countDocuments_def)
  then show ?thesis
    using get_index_query [OF q, of db] e p
    by (simp add: total_pages_div clamp_page_def sort_createdAt_def)
qed

text \<open>
  C10. The claim: whenever nothing passes the filter, the answer reports the effective
  page with an empty list of notes. For the page parameter \<^verbatim>\<open>-3\<close> the effective page
  is -3 (see C4), the handler asks the store to skip -20 documents, and the answer is
  status 500.
\<close>

theorem empty_listing_negative_page:
  "get_index reject_all [] (Some alice) (only_page ''-3'') = Status500"
  by (simp add: handler_defs string_defs example_defs total_pages_div)

section \<open>Sorting\<close>

lemma sort_createdAt_sorted:
  "sorted_wrt (\<lambda>a b. d * createdAt a \<le> d * createdAt b) (sort_createdAt d ns)"
  using sorted_sort_key [of "\<lambda>n. d * createdAt n" ns]
  by (simp add: sort_createdAt_def sorted_map)

lemma sort_createdAt_unique:
  assumes m: "mset xs = mset ys" and dist: "distinct (map createdAt xs)" and d: "d \<noteq> 0"
  shows "sort_createdAt d xs = sort_createdAt d ys"
proof -
  let ?f = "\<lambda>n. d * createdAt n"
  have "inj_on createdAt (set xs)"
    using dist by (simp add: distinct_map)
  then have inj: "inj_on ?f (set xs)"
    using d by (auto simp: inj_on_def)
  have "sort_key ?f xs = sort_key ?f ys"
  proof (rule sort_key_inj_key_eq [OF _ inj])
    show "mset xs = mset (sort_key ?f ys)" using m by simp
    show "sorted (map ?f (sort_key ?f ys))" by (rule sorted_sort_key)
  qed
  then show ?thesis by (simp add: sort_createdAt_def)
qed

lemma sort_createdAt_three:
  assumes m: "mset db = {#a, b, c#}" and lt: "createdAt a < createdAt b" "createdAt b < createdAt c"
  shows "sort_createdAt 1 db = [a, b, c]" and "sort_createdAt (- 1) db = [c, b, a]"
proof -
  have inj: "inj_on (\<lambda>n. d * createdAt n) (set db)" if "d \<noteq> 0" for d :: int
  proof -
    have "set db = {a, b, c}"
      using arg_cong [OF m, of set_mset] by simp
    then show ?thesis using lt that by (auto simp: inj_on_def)
  qed
  show "sort_createdAt 1 db = [a, b, c]"
    unfolding sort_createdAt_def
    by (rule sort_key_inj_key_eq [OF _ inj]) (use m lt in auto)
  show "sort_createdAt (- 1) db = [c, b, a]"
    unfolding sort_createdAt_def
    by (rule sort_key_inj_key_eq [OF _ inj]) (use m lt in \<open>auto simp: add_mset_commute\<close>)
qed

lemma sortOptions_cases:
  "sortOptions (sort_param s) = (if s = Some ''oldest'' then 1 else - 1)"
  by (auto simp: sortOptions_def sort_param_def split: option.splits)

lemma listing_sorted:
  assumes r: "get_index eng db (Some u) params = Render v"
  shows "if q_sort params = Some ''oldest''
         then sorted_wrt (\<lambda>a b. createdAt a \<le> createdAt b) (notes v)
         else sorted_wrt (\<lambda>a b. createdAt b \<le> createdAt a) (notes v)"
proof -
  obtain q where q: "build_query eng (userid u) (search_param (q_search params)) = Query q"
    using r by (cases "build_query eng (userid u) (search_param (q_search params))")
      (auto simp: get_index_def Let_def)
  obtain k where n: "notes v = take limit (drop k (sort_createdAt (sortOptions (sort_param (q_sort params)))
      (filter (matches q) db)))"
    using r get_index_query [OF q, of db] by (auto split: if_splits)
  have "sorted_wrt (\<lambda>a b. d * createdAt a \<le> d * createdAt b) (notes v)"
    if "d = sortOptions (sort_param (q_sort params))" for d
    unfolding n that by (intro sorted_wrt_take sorted_wrt_drop sort_createdAt_sorted)
  from this [OF refl] show ?thesis
    by (simp add: sortOptions_cases split: if_splits)
qed

text \<open>
  C5. The sort option is ascending creation time for the parameter \<^verbatim>\<open>oldest\<close> and
  descending creation time for every other value and for no value; a rendered page is
  ordered accordingly; three notes of the owner created at increasing times are listed
  in that order for \<^verbatim>\<open>oldest\<close> and in the reverse order otherwise.
\<close>

theorem sort_modes:
  "sortOptions (sort_param s) = (if s = Some ''oldest'' then 1 else - 1) \<and>
   (\<forall>v. get_index eng db (Some u) params = Render v \<longrightarrow>
      (if q_sort params = Some ''oldest''
       then sorted_wrt (\<lambda>a b. createdAt a \<le> createdAt b) (notes v)
       else sorted_wrt (\<lambda>a b. createdAt b \<le> createdAt a) (notes v))) \<and>
   (mset db3 = {#a, b, c#} \<and> user a = userid u \<and> user b = userid u \<and> user c = userid u \<and>
    createdAt a < createdAt b \<and> createdAt b < createdAt c \<longrightarrow>
      get_index eng db3 (Some u) \<lparr>q_page = None, q_sort = s, q_search = None\<rparr> =
        Render \<lparr>notes = (if s = Some ''oldest'' then [a, b, c] else [c, b, a]),
                currentPage = 1, totalPages = 1, totalNotes = 3,
                v_sort = sort_param s, v_search = []\<rparr>)"
proof (intro conjI allI impI)
  show "sortOptions (sort_param s) = (if s = Some ''oldest'' then 1 else - 1)"
    by (rule sortOptions_cases)
next
  fix v assume "get_index eng db (Some u) params = Render v"
  then show "if q_sort params = Some ''oldest''
       then sorted_wrt (\<lambda>a b. createdAt a \<le> createdAt b) (notes v)
       else sorted_wrt (\<lambda>a b. createdAt b \<le> createdAt a) (notes v)"
    by (rule listing_sorted)
next
  let ?q = "\<lparr>user_eq = userid u, or_regex = None\<rparr>"
  let ?params = "\<lparr>q_page = None, q_sort = s, q_search = None\<rparr>"
  assume h: "mset db3 = {#a, b, c#} \<and> user a = userid u \<and> user b = userid u \<and>
    user c = userid u \<and> createdAt a < createdAt b \<and> createdAt b < createdAt c"
  have q: "build_query eng (userid u) (search_param (q_search ?params)) = Query ?q"
    by (simp add: build_query_def search_param_def)
  from h have m: "mset db3 = {#a, b, c#}"
    by simp
  have "set db3 = {a, b, c}"
    using arg_cong [OF m, of set_mset] by simp
  then have all: "filter (matches ?q) db3 = db3"
    using h by (auto simp: matches_def filter_id_conv)
  have len: "length db3 = 3"
    using arg_cong [OF m, of size] by simp
  have srt: "sort_createdAt (sortOptions (sort_param s)) db3 =
               (if s = Some ''oldest'' then [a, b, c] else [c, b, a])"
    using h sort_createdAt_three [of db3 a b c] by (simp add: sortOptions_cases)
  show "get_index eng db3 (Some u) ?params =
        Render \<lparr>notes = (if s = Some ''oldest'' then [a, b, c] else [c, b, a]),
                currentPage = 1, totalPages = 1, totalNotes = 3,
                v_sort = sort_param s, v_search = []\<rparr>"
    unfolding get_index_query [OF q]
    by (simp add: all len srt countDocuments_def total_pages_div clamp_page_def
        effective_page_def limit_def search_param_def)
qed

theorem sort_modes_witness:
  "get_index reject_all [todo, grocery, errand] (Some alice) (only_sort ''oldest'') =
     Render \<lparr>notes = [grocery, errand, todo], currentPage = 1, totalPages = 1, totalNotes = 3,
             v_sort = ''oldest'', v_search = []\<rparr> \<and>
   get_index reject_all [todo, grocery, errand] (Some alice) (only_sort ''latest'') =
     Render \<lparr>notes = [todo, errand, grocery], currentPage = 1, totalPages = 1, totalNotes = 3,
             v_sort = ''latest'', v_search = []\<rparr>"
proof -
  have m: "mset [todo, grocery, errand] = {#grocery, errand, todo#}"
    by simp
  have h: "user grocery = userid alice \<and> user errand = userid alice \<and>
           user todo = userid alice \<and> createdAt grocery < createdAt errand \<and>
           createdAt errand < createdAt todo"
    by (simp add: example_defs)
  from sort_modes [where s = "Some ''oldest''" and eng = reject_all and db = "[]" and u = alice
        and params = no_params and ?db3.0 = "[todo, grocery, errand]"
        and a = grocery and b = errand and c = todo]
    sort_modes [where s = "Some ''latest''" and eng = reject_all and db = "[]" and u = alice
        and params = no_params and ?db3.0 = "[todo, grocery, errand]"
        and a = grocery and b = errand and c = todo]
  show ?thesis
    using m h by (simp add: only_sort_def sort_param_def)
qed

section \<open>Order among equal creation times\<close>

text \<open>
  C9, as claimed: with the data unchanged, two calls return the same slice, and notes
  with equal creation times are kept in place by a second sort key. The handler sorts
  by the creation time alone. The two notes below have the same creation time; the same
  two documents, enumerated by the store in the one order or the other, are listed in
  the one order or the other.
\<close>

theorem equal_times_counterexample:
  "mset [twin1, twin2] = mset [twin2, twin1] \<and>
   createdAt twin1 = createdAt twin2 \<and>
   get_index reject_all [twin1, twin2] (Some alice) no_params \<noteq>
   get_index reject_all [twin2, twin1] (Some alice) no_params"
  by (simp add: handler_defs string_defs example_defs total_pages_div)

text \<open>
  C9, amended: when the owner's notes have pairwise different creation times, the
  answer depends on the documents only, not on the order in which the store enumerates
  them, and a rendered page is ordered by creation time as the sort mode says.
\<close>

theorem distinct_times_deterministic:
  assumes m: "mset db1 = mset db2"
    and dist: "distinct (map createdAt (filter (\<lambda>n. user n = userid u) db1))"
  shows "get_index eng db1 (Some u) params = get_index eng db2 (Some u) params \<and>
         (\<forall>v. get_index eng db1 (Some u) params = Render v \<longrightarrow>
            (if q_sort params = Some ''oldest''
             then sorted_wrt (\<lambda>a b. createdAt a \<le> createdAt b) (notes v)
             else sorted_wrt (\<lambda>a b. createdAt b \<le> createdAt a) (notes v)))"
proof (intro conjI allI impI)
  show "get_index eng db1 (Some u) params = get_index eng db2 (Some u) params"
  proof (cases "build_query eng (userid u) (search_param (q_search params))")
    case (Query q)
    have own: "filter (matches q) db1 = filter (matches q) (filter (\<lambda>n. user n = userid u) db1)"
      using build_query_user [OF Query] by (auto simp: matches_def intro: filter_cong)
    have d: "distinct (map createdAt (filter (matches q) db1))"
      unfolding own using dist by (rule distinct_map_filter)
    have mq: "mset (filter (matches q) db1) = mset (filter (matches q) db2)"
      using m by simp
    have cnt: "countDocuments q db1 = countDocuments q db2"
      unfolding countDocuments_def by (metis mq size_mset)
    have "sortOptions (sort_param (q_sort params)) \<noteq> 0"
      by (simp add: sortOptions_cases)
    from sort_createdAt_unique [OF mq d this] cnt show ?thesis
      unfolding get_index_query [OF Query] by simp
  qed (simp_all add: get_index_def Let_def)
next
  fix v assume "get_index eng db1 (Some u) params = Render v"
  then show "if q_sort params = Some ''oldest''
             then sorted_wrt (\<lambda>a b. createdAt a \<le> createdAt b) (notes v)
             else sorted_wrt (\<lambda>a b. createdAt b \<le> createdAt a) (notes v)"
    by (rule listing_sorted)
qed

theorem distinct_times_deterministic_witness:
  "mset [todo, grocery, errand] = mset [errand, todo, grocery] \<and>
   distinct (map createdAt (filter (\<lambda>n. user n = userid alice) [todo, grocery, errand])) \<and>
   get_index reject_all [todo, grocery, errand] (Some alice) no_params =
   get_index reject_all [errand, todo, grocery] (Some alice) no_params"
proof -
  have m: "mset [todo, grocery, errand] = mset [errand, todo, grocery]"
    by simp
  have d: "distinct (map createdAt (filter (\<lambda>n. user n = userid alice) [todo, grocery, errand]))"
    by (simp add: example_defs)
  from distinct_times_deterministic [OF m d, where eng = reject_all and params = no_params]
  show ?thesis
    using m d by simp
qed

section \<open>Search\<close>

lemma ci_prefix_iff: "ci_prefix p s = prefix (map upcase p) (map upcase s)"
  by (induction p s rule: ci_prefix.induct) simp_all

lemma ci_search_iff: "ci_search p s = ci_substring p s"
  unfolding ci_substring_def
  by (induction s) (simp_all add: ci_prefix_iff sublist_Cons_right)

lemma literal_not_special:
  "literal_character c \<Longrightarrow> c \<noteq> CHR ''|'' \<and> \<not> quantifier c"
  by (auto simp: literal_character_def syntax_character_def quantifier_def)

lemma split_bar_no_bar: "CHR ''|'' \<notin> set t \<Longrightarrow> split_bar t = [t]"
  by (induction t) auto

lemma new_RegExp_literal:
  assumes "list_all literal_character t" and "t \<noteq> []"
  shows "new_RegExp eng t = RegExp (regexp_test [t])"
proof -
  have nb: "CHR ''|'' \<notin> set t" and nq: "\<not> list_ex quantifier t"
    using assms(1) literal_not_special by (auto simp: list_all_iff list_ex_iff)
  have ok: "\<not> list_ex (\<lambda>c. \<not> (literal_character c \<or> c = CHR ''|'' \<or> quantifier c)) t"
    using assms(1) by (auto simp: list_all_iff list_ex_iff)
  have sb: "split_bar t = [t]"
    by (rule split_bar_no_bar [OF nb])
  obtain c cs where t: "t = c # cs"
    using assms(2) by (cases t) auto
  have first: "\<not> list_ex (\<lambda>a. case a of c # _ \<Rightarrow> quantifier c | [] \<Rightarrow> False) [t]"
    using nq t by simp
  show ?thesis
    unfolding new_RegExp_def sb by (simp only: ok first nq if_False)
qed

lemma matches_literal:
  "matches \<lparr>user_eq = i, or_regex = Some (regexp_test [t])\<rparr> n =
     (user n = i \<and> (ci_substring t (title n) \<or> ci_substring t (content n)))"
  by (simp add: matches_def regexp_test_def ci_search_iff)

lemma build_query_literal:
  assumes "list_all literal_character (trim s)" and "trim s \<noteq> []"
  shows "build_query eng i (search_param (Some s)) = Query \<lparr>user_eq = i, or_regex = Some (regexp_test [trim s])\<rparr>"
proof -
  have "s \<noteq> []"
    using assms(2) by (auto simp: trim_def)
  then show ?thesis
    using assms by (simp add: build_query_def search_param_def new_RegExp_literal)
qed

lemma search_param_literal: "trim s \<noteq> [] \<Longrightarrow> search_param (Some s) = trim s"
  by (auto simp: search_param_def trim_def)







text \<open>
  A search term that starts with a quantifier is no regular expression: the constructor
  throws and the handler answers status 500.
\<close>

lemma search_star_status500:
  "get_index eng example_db (Some alice) (only_search ''*'') = Status500"
  by (simp add: handler_defs string_defs example_defs total_pages_div)




lemma build_query_rejected:
  assumes "trim s \<noteq> []" and "new_RegExp eng (trim s) = SyntaxError"
  shows "build_query eng i (search_param (Some s)) = Throws"
  using assms by (simp add: build_query_def search_param_literal)


text \<open>
  A term the constructor rejects ends in the handler's \<^verbatim>\<open>catch\<close>. A term with a TAB
  inside is made of literal characters; NO-BREAK SPACE around a term is trimmed.
\<close>

lemma search_rejected_status500:
  assumes ne: "trim s \<noteq> []" and r: "new_RegExp eng (trim s) = SyntaxError"
  shows "get_index eng db (Some u) \<lparr>q_page = p, q_sort = so, q_search = Some s\<rparr> = Status500"
  using build_query_rejected [OF ne r] by (simp add: get_index_def)

lemma tab_is_literal: "list_all literal_character (''a'' @ [CHR 0x09] @ ''b'')"
  by (simp add: literal_character_def syntax_character_def)

lemma trim_no_break_space: "search_param (Some (CHR 0xA0 # ''ab'' @ [CHR 0xA0])) = ''ab''"
  by (simp add: search_param_def trim_def is_white_space_def)



section \<open>Delete\<close>

lemma find_other_owner:
  assumes ids: "distinct (map oid db)" and n: "n \<in> set db" and other: "user n \<noteq> i"
  shows "find (\<lambda>m. oid m = oid n \<and> user m = i) db = None"
proof -
  have "inj_on oid (set db)"
    using ids by (simp add: distinct_map)
  then have "m = n" if "m \<in> set db" and "oid m = oid n" for m
    using that n by (auto dest: inj_onD)
  then show ?thesis
    using other by (auto simp: find_None_iff)
qed

lemma find_absent_id:
  assumes "j \<notin> oid ` set db"
  shows "find (\<lambda>m. oid m = j \<and> user m = i) db = None"
  using assms by (auto simp: find_None_iff)

text \<open>The owner's own delete removes the note.\<close>

lemma delete_own_note:
  "post_delete example_jwt None (Some (alice, ''jwt_secret'')) (Some 10) example_db =
     (\<lparr>flash = (''success'', ''Note deleted''), redirect = ''/''\<rparr>, [diary, todo])"
  by (simp add: login_defs example_defs)

text \<open>
  C6. A delete request of a logged-in user for the identifier of a note that exists and
  belongs to another user is answered with Note not found and leaves the collection as
  it was; the answer is the one given for an identifier that no note has.
\<close>

theorem delete_other_owner_not_found:
  assumes tok: "verify jwt t (JWT_SECRET env) = Some u"
    and ids: "distinct (map oid db)"
    and n: "n \<in> set db"
    and other: "user n \<noteq> userid u"
  shows "post_delete jwt env (Some t) (Some (oid n)) db =
           (\<lparr>flash = (''error'', ''Note not found''), redirect = ''/''\<rparr>, db) \<and>
         (\<forall>j. j \<notin> oid ` set db \<longrightarrow>
            post_delete jwt env (Some t) (Some j) db =
              (\<lparr>flash = (''error'', ''Note not found''), redirect = ''/''\<rparr>, db))"
  using tok find_other_owner [OF ids n other] find_absent_id [of _ db "userid u"]
  by (simp add: post_delete_def findOneAndDelete_def)

theorem delete_other_owner_not_found_witness:
  "verify example_jwt (bob, ''jwt_secret'') (JWT_SECRET None) = Some bob \<and>
   distinct (map oid example_db) \<and> grocery \<in> set example_db \<and> user grocery \<noteq> userid bob \<and>
   post_delete example_jwt None (Some (bob, ''jwt_secret'')) (Some 10) example_db =
     (\<lparr>flash = (''error'', ''Note not found''), redirect = ''/''\<rparr>, example_db) \<and>
   post_delete example_jwt None (Some (bob, ''jwt_secret'')) (Some 99) example_db =
     (\<lparr>flash = (''error'', ''Note not found''), redirect = ''/''\<rparr>, example_db)"
proof -
  have tok: "verify example_jwt (bob, ''jwt_secret'') (JWT_SECRET None) = Some bob"
    by (simp add: example_jwt_def JWT_SECRET_def)
  have ids: "distinct (map oid example_db)"
    by (simp add: example_defs)
  have n: "grocery \<in> set example_db"
    by (simp add: example_db_def)
  have other: "user grocery \<noteq> userid bob"
    by (simp add: example_defs)
  have absent: "99 \<notin> oid ` set example_db"
    by (simp add: example_defs)
  have ten: "oid grocery = 10"
    by (simp add: grocery_def)
  from delete_other_owner_not_found [OF tok ids n other] absent ten
  show ?thesis
    using tok ids n other by simp
qed

section \<open>Login\<close>

text \<open>
  A login for an email that no user has, and a login for a known email with a
  password that \<^verbatim>\<open>bcrypt.compare\<close> does not accept, get one and the same answer: the
  flash message Invalid email or password, a redirect to the login page, no cookie.
\<close>

lemma login_failures_collapse:
  "(findOne users e = None \<longrightarrow>
      post_login jwt cmp env users e pw =
        (\<lparr>flash = (''error'', ''Invalid email or password''), redirect = ''/login''\<rparr>, None)) \<and>
   (\<forall>usr p. findOne users e = Some usr \<and> \<not> cmp p (password usr) \<longrightarrow>
      post_login jwt cmp env users e (Some p) =
        (\<lparr>flash = (''error'', ''Invalid email or password''), redirect = ''/login''\<rparr>, None))"
  by (simp add: post_login_def)

text \<open>
  A login with no password in the body: for the email of a user
  \<^verbatim>\<open>bcrypt.compare\<close> throws and the \<^verbatim>\<open>catch\<close> answers; for an email that no user
  has the handler answers before it compares.
\<close>

lemma login_without_password:
  "findOne users e = Some usr \<Longrightarrow>
   post_login jwt cmp env users e None =
     (\<lparr>flash = (''error'', ''Error logging in''), redirect = ''/login''\<rparr>, None)"
  by (simp add: post_login_def)

text \<open>
  C7. The claim: every failing login gets one and the same answer, so that a caller
  cannot tell an unknown email from a wrong password. A login that sends no password
  fails with the message Error logging in when the email belongs to a user, and with
  the message Invalid email or password when it does not: the two answers differ.
\<close>

theorem login_without_password_reveals_account:
  "post_login example_jwt example_compare None [alice_user] ''alice@example.org'' None =
     (\<lparr>flash = (''error'', ''Error logging in''), redirect = ''/login''\<rparr>, None) \<and>
   post_login example_jwt example_compare None [alice_user] ''nobody@example.org'' None =
     (\<lparr>flash = (''error'', ''Invalid email or password''), redirect = ''/login''\<rparr>, None) \<and>
   post_login example_jwt example_compare None [alice_user] ''alice@example.org'' None \<noteq>
   post_login example_jwt example_compare None [alice_user] ''nobody@example.org'' None"
  by (simp add: login_defs)

section \<open>Tokens\<close>

text \<open>
  C8. Given that the token library verifies what it signed with the same secret: a
  login with the email of a user and a password that matches sets a token from which
  the token middleware recovers that user's identifier and email. A token that does not
  verify, and no token, leave no identity, and the listing is then the empty listing of
  an anonymous request.
\<close>

theorem token_round_trip:
  assumes lib: "\<forall>payload secret. verify jwt (sign jwt payload secret) secret = Some payload"
  shows "(\<forall>usr p. findOne users e = Some usr \<and> cmp p (password usr) \<longrightarrow>
            (\<exists>t. post_login jwt cmp env users e (Some p) =
                   (\<lparr>flash = (''success'', ''Logged in successfully''), redirect = ''/''\<rparr>, Some t) \<and>
                 token_middleware jwt env (Some t) =
                   Some \<lparr>token_payload.email = User.email usr, userid = uid usr\<rparr>)) \<and>
         (\<forall>t. verify jwt t (JWT_SECRET env) = None \<longrightarrow>
            token_middleware jwt env (Some t) = None \<and>
            get_index eng db (token_middleware jwt env (Some t)) params =
              Render \<lparr>notes = [], currentPage = 1, totalPages = 0, totalNotes = 0,
                      v_sort = sort_param (q_sort params),
                      v_search = search_param (q_search params)\<rparr>) \<and>
         token_middleware jwt env None = None"
proof (intro conjI allI impI)
  fix usr p
  assume "findOne users e = Some usr \<and> cmp p (password usr)"
  then show "\<exists>t. post_login jwt cmp env users e (Some p) =
                   (\<lparr>flash = (''success'', ''Logged in successfully''), redirect = ''/''\<rparr>, Some t) \<and>
                 token_middleware jwt env (Some t) =
                   Some \<lparr>token_payload.email = User.email usr, userid = uid usr\<rparr>"
    using lib by (simp add: post_login_def token_middleware_def)
next
  fix t
  assume v: "verify jwt t (JWT_SECRET env) = None"
  then show none: "token_middleware jwt env (Some t) = None"
    by (simp add: token_middleware_def)
  show "get_index eng db (token_middleware jwt env (Some t)) params =
              Render \<lparr>notes = [], currentPage = 1, totalPages = 0, totalNotes = 0,
                      v_sort = sort_param (q_sort params),
                      v_search = search_param (q_search params)\<rparr>"
    unfolding none by (rule get_index_anonymous)
next
  show "token_middleware jwt env None = None"
    by (simp add: token_middleware_def)
qed

theorem token_round_trip_witness:
  "(\<forall>payload secret. verify example_jwt (sign example_jwt payload secret) secret = Some payload) \<and>
   findOne [alice_user] ''alice@example.org'' = Some alice_user \<and>
   example_compare ''wonderland'' (password alice_user) \<and>
   (\<exists>t. post_login example_jwt example_compare None [alice_user] ''alice@example.org''
           (Some ''wonderland'') =
          (\<lparr>flash = (''success'', ''Logged in successfully''), redirect = ''/''\<rparr>, Some t) \<and>
        token_middleware example_jwt None (Some t) = Some alice) \<and>
   verify example_jwt (alice, ''forged'') (JWT_SECRET None) = None \<and>
   token_middleware example_jwt None (Some (alice, ''forged'')) = None"
proof -
  have lib: "\<forall>payload secret.
      verify example_jwt (sign example_jwt payload secret) secret = Some payload"
    by (simp add: example_jwt_def)
  have known: "findOne [alice_user] ''alice@example.org'' = Some alice_user"
    by (simp add: findOne_def alice_user_def)
  have right: "example_compare ''wonderland'' (password alice_user)"
    by (simp add: example_compare_def alice_user_def)
  have forged: "verify example_jwt (alice, ''forged'') (JWT_SECRET None) = None"
    by (simp add: example_jwt_def JWT_SECRET_def)
  have same: "\<lparr>token_payload.email = User.email alice_user, userid = uid alice_user\<rparr> = alice"
    by (simp add: alice_user_def alice_def)
  note t = token_round_trip [OF lib, where users = "[alice_user]" and e = "''alice@example.org''"
      and cmp = example_compare and env = None and eng = reject_all and db = "[]"
      and params = no_params]
  from t known right
  have "\<exists>t. post_login example_jwt example_compare None [alice_user] ''alice@example.org''
           (Some ''wonderland'') =
          (\<lparr>flash = (''success'', ''Logged in successfully''), redirect = ''/''\<rparr>, Some t) \<and>
        token_middleware example_jwt None (Some t) =
          Some \<lparr>token_payload.email = User.email alice_user, userid = uid alice_user\<rparr>"
    by blast
  then have "\<exists>t. post_login example_jwt example_compare None [alice_user] ''alice@example.org''
           (Some ''wonderland'') =
          (\<lparr>flash = (''success'', ''Logged in successfully''), redirect = ''/''\<rparr>, Some t) \<and>
        token_middleware example_jwt None (Some t) = Some alice"
    by (simp only: same)
  moreover from t forged
  have "token_middleware example_jwt None (Some (alice, ''forged'')) = None"
    by blast
  ultimately show ?thesis
    using lib known right forged by blast
qed

end
